theory Spec2Isabelle
  imports Complex_Main
begin

text \<open>
  A shallow embedding of the Kalman, extended Kalman and unscented Kalman updaters of
  \<^verbatim>\<open>stonesoup/updater/kalman.py\<close>. What the embedding takes for granted:
  \<^item> \<^verbatim>\<open>float64\<close> is \<open>real\<close>: the arithmetic is exact, rounding is not modelled;
  \<^item> every array is two-dimensional with at least one row (state vectors are columns);
  \<^item> the measurement model, \<^verbatim>\<open>gauss2sigma\<close> and \<^verbatim>\<open>unscented_transform\<close> are parameters;
  \<^item> the keyword arguments that the methods accept and ignore are left out.
\<close>

section \<open>Python failures and instrumented computations\<close>

text \<open>
  The updaters of \<^verbatim>\<open>stonesoup/updater/kalman.py\<close> raise no exception of their own.
  A call fails through the Python run time or through numpy:
  \<^item> \<open>AttributeError\<close>: an attribute is read from \<^verbatim>\<open>None\<close> (no measurement model
    anywhere) or from a model that lacks it (\<^verbatim>\<open>matrix\<close>, \<^verbatim>\<open>jacobian\<close>);
  \<^item> \<open>ValueError\<close>: numpy refuses the shapes of the operands of \<^verbatim>\<open>@\<close>, \<^verbatim>\<open>+\<close>, \<^verbatim>\<open>-\<close>;
  \<^item> \<open>LinAlgError\<close>: \<^verbatim>\<open>np.linalg.inv\<close> is given a matrix that is not square or is singular.

  A computation returns the calls on arrays and on collaborators that it has performed,
  in the order of Python's evaluation, together with its outcome.
\<close>

datatype error = AttributeError | ValueError | LinAlgError

datatype event =
    MatMul | Transpose | Add | Subtract | Inv
  | Function | Covar | Matrix | Jacobian
  | Gauss2Sigma | UnscentedTransform

type_synonym 'a comp = "event list \<times> (error + 'a)"

definition ret :: "'a \<Rightarrow> 'a comp" where
  "ret x = ([], Inr x)"

definition raise :: "error \<Rightarrow> 'a comp" where
  "raise e = ([], Inl e)"

definition perform :: "event \<Rightarrow> error + 'a \<Rightarrow> 'a comp" where
  "perform c r = ([c], r)"

definition seq :: "'a comp \<Rightarrow> ('a \<Rightarrow> 'b comp) \<Rightarrow> 'b comp" where
  "seq m f =
     (case snd m of
        Inl e \<Rightarrow> (fst m, Inl e)
      | Inr x \<Rightarrow> (fst m @ fst (f x), snd (f x)))"

section \<open>Two-dimensional numpy arrays\<close>

text \<open>
  An array is the list of its rows; \<^verbatim>\<open>float64\<close> is taken as \<open>real\<close>, so the arithmetic
  is exact. State vectors are column vectors (arrays with one column), as Stone Soup has them.
\<close>

type_synonym ndarray = "real list list"

definition nrows :: "ndarray \<Rightarrow> nat" where
  "nrows A = length A"

definition ncols :: "ndarray \<Rightarrow> nat" where
  "ncols A = (case A of [] \<Rightarrow> 0 | r # _ \<Rightarrow> length r)"

definition is_mat :: "nat \<Rightarrow> nat \<Rightarrow> ndarray \<Rightarrow> bool" where
  "is_mat r c A \<longleftrightarrow> length A = r \<and> list_all (\<lambda>row. length row = c) A"

definition mk_mat :: "nat \<Rightarrow> nat \<Rightarrow> (nat \<Rightarrow> nat \<Rightarrow> real) \<Rightarrow> ndarray" where
  "mk_mat r c f = map (\<lambda>i. map (f i) [0..<c]) [0..<r]"

definition mT :: "ndarray \<Rightarrow> ndarray" where
  "mT A = mk_mat (ncols A) (nrows A) (\<lambda>i j. A ! j ! i)"

definition mm :: "ndarray \<Rightarrow> ndarray \<Rightarrow> ndarray" where
  "mm A B = mk_mat (nrows A) (ncols B) (\<lambda>i j. \<Sum>k<ncols A. A ! i ! k * B ! k ! j)"

text \<open>
  Broadcasting of \<^verbatim>\<open>+\<close> and \<^verbatim>\<open>-\<close> on two-dimensional arrays: along each axis the lengths
  are equal or one of them is 1, and the operand of length 1 is repeated.
\<close>

definition bcompat :: "nat \<Rightarrow> nat \<Rightarrow> bool" where
  "bcompat a b \<longleftrightarrow> a = b \<or> a = 1 \<or> b = 1"

definition bdim :: "nat \<Rightarrow> nat \<Rightarrow> nat" where
  "bdim a b = (if a = 1 then b else a)"

definition bidx :: "nat \<Rightarrow> nat \<Rightarrow> nat" where
  "bidx n i = (if n = 1 then 0 else i)"

definition broadcast2 :: "(real \<Rightarrow> real \<Rightarrow> real) \<Rightarrow> ndarray \<Rightarrow> ndarray \<Rightarrow> ndarray" where
  "broadcast2 f A B =
     mk_mat (bdim (nrows A) (nrows B)) (bdim (ncols A) (ncols B))
       (\<lambda>i j. f (A ! bidx (nrows A) i ! bidx (ncols A) j)
                (B ! bidx (nrows B) i ! bidx (ncols B) j))"

definition elementwise :: "(real \<Rightarrow> real \<Rightarrow> real) \<Rightarrow> ndarray \<Rightarrow> ndarray \<Rightarrow> error + ndarray" where
  "elementwise f A B =
     (if bcompat (nrows A) (nrows B) \<and> bcompat (ncols A) (ncols B)
      then Inr (broadcast2 f A B) else Inl ValueError)"

definition matmul :: "ndarray \<Rightarrow> ndarray \<Rightarrow> error + ndarray" where
  "matmul A B = (if ncols A = nrows B then Inr (mm A B) else Inl ValueError)"

definition np_matmul :: "ndarray \<Rightarrow> ndarray \<Rightarrow> ndarray comp" where
  "np_matmul A B = perform MatMul (matmul A B)"

definition np_T :: "ndarray \<Rightarrow> ndarray comp" where
  "np_T A = perform Transpose (Inr (mT A))"

definition np_add :: "ndarray \<Rightarrow> ndarray \<Rightarrow> ndarray comp" where
  "np_add A B = perform Add (elementwise (+) A B)"

definition np_subtract :: "ndarray \<Rightarrow> ndarray \<Rightarrow> ndarray comp" where
  "np_subtract A B = perform Subtract (elementwise (-) A B)"

subsection \<open>\<^verbatim>\<open>np.linalg.inv\<close>\<close>

text \<open>
  Inversion by Gauss-Jordan elimination on the rows of \<open>[A | I]\<close>. Column \<open>j\<close> is cleared
  with the first remaining row whose entry in that column is not zero; when there is none
  the matrix is singular. LAPACK picks the entry of largest magnitude instead, which in exact
  arithmetic gives the same inverse and fails on the same matrices.
\<close>

type_synonym aug_row = "real list \<times> real list"

fun find_pivot :: "nat \<Rightarrow> aug_row list \<Rightarrow> (aug_row \<times> aug_row list) option" where
  "find_pivot j [] = None"
| "find_pivot j (r # rs) =
     (if fst r ! j = 0
      then (case find_pivot j rs of None \<Rightarrow> None | Some (p, rest) \<Rightarrow> Some (p, r # rest))
      else Some (r, rs))"

definition scale_row :: "real \<Rightarrow> aug_row \<Rightarrow> aug_row" where
  "scale_row c r = (map ((*) c) (fst r), map ((*) c) (snd r))"

definition sub_row :: "real \<Rightarrow> aug_row \<Rightarrow> aug_row \<Rightarrow> aug_row" where
  "sub_row c p r =
     (map2 (\<lambda>a b. a - c * b) (fst r) (fst p), map2 (\<lambda>a b. a - c * b) (snd r) (snd p))"

definition eliminate :: "nat \<Rightarrow> aug_row \<Rightarrow> aug_row \<Rightarrow> aug_row" where
  "eliminate j p r = sub_row (fst r ! j) p r"

fun gauss_jordan :: "nat \<Rightarrow> aug_row list \<Rightarrow> aug_row list \<Rightarrow> aug_row list option" where
  "gauss_jordan 0 piv todo = Some piv"
| "gauss_jordan (Suc k) piv todo =
     (case find_pivot (length piv) todo of
        None \<Rightarrow> None
      | Some (p, rest) \<Rightarrow>
          (let q = scale_row (1 / fst p ! length piv) p
           in gauss_jordan k (map (eliminate (length piv) q) piv @ [q])
                (map (eliminate (length piv) q) rest)))"

definition identity :: "nat \<Rightarrow> ndarray" where
  "identity n = mk_mat n n (\<lambda>i j. if i = j then 1 else 0)"

definition linalg_inv :: "ndarray \<Rightarrow> error + ndarray" where
  "linalg_inv A =
     (if nrows A = ncols A
      then (case gauss_jordan (nrows A) [] (zip A (identity (nrows A))) of
              None \<Rightarrow> Inl LinAlgError
            | Some rows \<Rightarrow> Inr (map snd rows))
      else Inl LinAlgError)"

definition np_linalg_inv :: "ndarray \<Rightarrow> ndarray comp" where
  "np_linalg_inv A = perform Inv (linalg_inv A)"

section \<open>Vocabulary of the properties\<close>

text \<open>
  A singular square matrix has a non-zero vector in its kernel; an array that is not square
  has no inverse either.
\<close>

definition dotp :: "real list \<Rightarrow> real list \<Rightarrow> real" where
  "dotp u v = (\<Sum>k<length u. u ! k * v ! k)"

definition null_vector :: "ndarray \<Rightarrow> real list \<Rightarrow> bool" where
  "null_vector A v \<longleftrightarrow>
     length v = ncols A \<and> (\<exists>i<length v. v ! i \<noteq> 0) \<and> (\<forall>a\<in>set A. dotp a v = 0)"

definition singular :: "ndarray \<Rightarrow> bool" where
  "singular A \<longleftrightarrow> nrows A \<noteq> ncols A \<or> (\<exists>v. null_vector A v)"

definition trace :: "ndarray \<Rightarrow> real" where
  "trace A = (\<Sum>i<nrows A. A ! i ! i)"

text \<open>The quadratic form \<open>v\<^sup>T S v\<close> and positive definiteness.\<close>

definition quad :: "ndarray \<Rightarrow> real list \<Rightarrow> real" where
  "quad S v = (\<Sum>l<length v. (\<Sum>a<length v. v ! a * S ! a ! l) * v ! l)"

definition pos_def :: "ndarray \<Rightarrow> bool" where
  "pos_def S \<longleftrightarrow> (\<forall>v. length v = nrows S \<and> (\<exists>i<length v. v ! i \<noteq> 0) \<longrightarrow> 0 < quad S v)"

subsection \<open>Invariants of the elimination\<close>

text \<open>
  The product of a row vector with a matrix; every row \<open>(x, y)\<close> of the augmented matrix
  satisfies \<open>x = y A\<close>. The rows already used as pivots carry the unit vectors in the
  columns cleared so far, the remaining rows are zero there, and the rows have the kernel
  of \<open>A\<close>.
\<close>

definition vecmat :: "real list \<Rightarrow> ndarray \<Rightarrow> real list" where
  "vecmat y A = map (\<lambda>j. \<Sum>k<length y. y ! k * A ! k ! j) [0..<ncols A]"

definition row_ok :: "nat \<Rightarrow> ndarray \<Rightarrow> aug_row \<Rightarrow> bool" where
  "row_ok n A r \<longleftrightarrow> length (fst r) = n \<and> length (snd r) = n \<and> fst r = vecmat (snd r) A"

definition unit_form :: "aug_row list \<Rightarrow> aug_row list \<Rightarrow> bool" where
  "unit_form piv todo \<longleftrightarrow>
     (\<forall>i<length piv. \<forall>c<length piv. fst (piv ! i) ! c = (if c = i then 1 else 0)) \<and>
     (\<forall>r\<in>set todo. \<forall>c<length piv. fst r ! c = 0)"

definition annihilates :: "aug_row list \<Rightarrow> real list \<Rightarrow> bool" where
  "annihilates rows v \<longleftrightarrow> (\<forall>r\<in>set rows. dotp (fst r) v = 0)"


definition gj_inv :: "nat \<Rightarrow> ndarray \<Rightarrow> aug_row list \<Rightarrow> aug_row list \<Rightarrow> bool" where
  "gj_inv n A piv todo \<longleftrightarrow>
     length piv + length todo = n \<and>
     (\<forall>r\<in>set (piv @ todo). row_ok n A r) \<and>
     unit_form piv todo \<and>
     (\<forall>v. annihilates (piv @ todo) v \<longleftrightarrow> (\<forall>a\<in>set A. dotp a v = 0))"

section \<open>Data model\<close>

type_synonym datetime = int

text \<open>
  Modelled from the spec: the container types \<^verbatim>\<open>GaussianMeasurementPrediction\<close>,
  \<^verbatim>\<open>GaussianStateUpdate\<close>, the predicted state, the detection and the hypothesis come from
  \<^verbatim>\<open>stonesoup.types\<close>, which is not part of the source; they are the plain containers of
  the spec's data model, and their constructors store the fields they are given.
\<close>

record state =
  state_vector :: ndarray
  timestamp :: datetime

record gaussian_state = state +
  covar :: ndarray

record gaussian_measurement_prediction = gaussian_state +
  cross_covar :: ndarray

text \<open>
  Modelled from the spec: a measurement model is an external object with the methods
  \<^verbatim>\<open>function(state_vector, noise)\<close> and \<^verbatim>\<open>covar()\<close> and, when it has them,
  \<^verbatim>\<open>matrix()\<close> and \<^verbatim>\<open>jacobian(state_vector)\<close>. The argument \<open>noise\<close> is a Python list
  or absent.
\<close>

record model =
  mm_function :: "ndarray \<Rightarrow> real list option \<Rightarrow> error + ndarray"
  mm_covar :: ndarray
  mm_matrix :: "ndarray option"
  mm_jacobian :: "(ndarray \<Rightarrow> error + ndarray) option"

record detection = state +
  measurement_model :: "model option"

record single_hypothesis =
  prediction :: gaussian_state
  measurement :: detection

record gaussian_state_update = gaussian_state +
  hypothesis :: single_hypothesis

datatype updater_class = KalmanUpdater | ExtendedKalmanUpdater | UnscentedKalmanUpdater

text \<open>
  An updater object: its class, the property \<^verbatim>\<open>measurement_model\<close> (default \<^verbatim>\<open>None\<close>) and
  the three spread parameters that the unscented updater reads.
\<close>

record updater =
  updater_class :: updater_class
  self_measurement_model :: "model option"
  alpha :: real
  beta :: real
  kappa :: real

text \<open>
  Modelled from the spec: \<^verbatim>\<open>gauss2sigma\<close> and \<^verbatim>\<open>unscented_transform\<close> are imported from
  \<^verbatim>\<open>stonesoup.functions\<close>, which is not part of the source. They are parameters of the
  model: the sigma-point generator returns the points and the two weight vectors, the transform
  returns the predicted mean, the predicted covariance and the cross-covariance.
\<close>

record stonesoup_functions =
  gauss2sigma :: "ndarray \<Rightarrow> ndarray \<Rightarrow> real \<Rightarrow> real \<Rightarrow> real
                    \<Rightarrow> error + (ndarray \<times> ndarray \<times> ndarray)"
  unscented_transform :: "ndarray \<Rightarrow> ndarray \<Rightarrow> ndarray
                    \<Rightarrow> (ndarray \<Rightarrow> real list option \<Rightarrow> error + ndarray) \<Rightarrow> ndarray
                    \<Rightarrow> error + (ndarray \<times> ndarray \<times> ndarray)"

section \<open>The updaters\<close>

text \<open>
  \<^verbatim>\<open>KalmanUpdater.measurement_matrix\<close> (inherited by the unscented updater) and its
  override \<^verbatim>\<open>ExtendedKalmanUpdater.measurement_matrix\<close>.
\<close>

definition measurement_matrix ::
  "updater \<Rightarrow> gaussian_state \<Rightarrow> model option \<Rightarrow> ndarray comp" where
  "measurement_matrix self predicted_state measurement_model0 =
     (case updater_class self of
        ExtendedKalmanUpdater \<Rightarrow>
          (case (case measurement_model0 of
                   None \<Rightarrow> self_measurement_model self | Some m \<Rightarrow> Some m) of
             None \<Rightarrow> raise AttributeError
           | Some m \<Rightarrow>
               (case mm_matrix m of
                  Some H \<Rightarrow> perform Matrix (Inr H)
                | None \<Rightarrow>
                    (case mm_jacobian m of
                       None \<Rightarrow> raise AttributeError
                     | Some jac \<Rightarrow> perform Jacobian (jac (state_vector predicted_state)))))
      | _ \<Rightarrow>
          (case self_measurement_model self of
             None \<Rightarrow> raise AttributeError
           | Some d \<Rightarrow>
               (case mm_matrix d of
                  None \<Rightarrow> raise AttributeError
                | Some H \<Rightarrow> perform Matrix (Inr H))))"

text \<open>
  \<^verbatim>\<open>KalmanUpdater.predict_measurement\<close> (inherited by the extended updater) and its
  override \<^verbatim>\<open>UnscentedKalmanUpdater.predict_measurement\<close>.
\<close>

definition predict_measurement ::
  "stonesoup_functions \<Rightarrow> updater \<Rightarrow> gaussian_state \<Rightarrow> model option
     \<Rightarrow> gaussian_measurement_prediction comp" where
  "predict_measurement fns self predicted_state measurement_model0 =
     (let measurement_model1 =
            (case measurement_model0 of
               None \<Rightarrow> self_measurement_model self | Some m \<Rightarrow> Some m)
      in case updater_class self of
        UnscentedKalmanUpdater \<Rightarrow>
          seq (perform Gauss2Sigma
                 (gauss2sigma fns (state_vector predicted_state) (covar predicted_state)
                    (alpha self) (beta self) (kappa self)))
            (\<lambda>(sigma_points, mean_weights, covar_weights).
               case measurement_model1 of
                 None \<Rightarrow> raise AttributeError
               | Some m \<Rightarrow>
                   seq (perform Covar (Inr (mm_covar m))) (\<lambda>covar_noise.
                   seq (perform UnscentedTransform
                          (unscented_transform fns sigma_points mean_weights covar_weights
                             (mm_function m) covar_noise))
                     (\<lambda>(meas_pred_mean, meas_pred_covar, cross_covar0).
                        ret \<lparr>state_vector = meas_pred_mean,
                             timestamp = timestamp predicted_state,
                             covar = meas_pred_covar,
                             cross_covar = cross_covar0\<rparr>)))
      | _ \<Rightarrow>
          (case measurement_model1 of
             None \<Rightarrow> raise AttributeError
           | Some m \<Rightarrow>
               seq (perform Function
                      (mm_function m (state_vector predicted_state) (Some [0]))) (\<lambda>pred_meas.
               seq (measurement_matrix self predicted_state (Some m)) (\<lambda>hh.
               seq (np_matmul hh (covar predicted_state)) (\<lambda>hp.
               seq (np_T hh) (\<lambda>ht.
               seq (np_matmul hp ht) (\<lambda>hpht.
               seq (perform Covar (Inr (mm_covar m))) (\<lambda>r.
               seq (np_add hpht r) (\<lambda>innov_cov.
               seq (np_T hh) (\<lambda>ht2.
               seq (np_matmul (covar predicted_state) ht2) (\<lambda>meas_cross_cov.
                 ret \<lparr>state_vector = pred_meas,
                      timestamp = timestamp predicted_state,
                      covar = innov_cov,
                      cross_covar = meas_cross_cov\<rparr>)))))))))))"

text \<open>Line 92: \<^verbatim>\<open>kalman_gain = m_cross_cov @ np.linalg.inv(innov_cov)\<close>.\<close>

definition kalman_gain :: "ndarray \<Rightarrow> ndarray \<Rightarrow> ndarray comp" where
  "kalman_gain m_cross_cov innov_cov =
     seq (np_linalg_inv innov_cov) (\<lambda>si. np_matmul m_cross_cov si)"

text \<open>Line 93: the posterior mean \<^verbatim>\<open>x + K @ (z - pred_meas)\<close>.\<close>

definition posterior_mean :: "ndarray \<Rightarrow> ndarray \<Rightarrow> ndarray \<Rightarrow> ndarray \<Rightarrow> ndarray comp" where
  "posterior_mean x k z pred_meas =
     seq (np_subtract z pred_meas) (\<lambda>d.
     seq (np_matmul k d) (\<lambda>kd. np_add x kd))"

text \<open>Line 94: the posterior covariance \<^verbatim>\<open>P - K @ S @ K.T\<close>.\<close>

definition posterior_covariance :: "ndarray \<Rightarrow> ndarray \<Rightarrow> ndarray \<Rightarrow> ndarray comp" where
  "posterior_covariance p k innov_cov =
     seq (np_matmul k innov_cov) (\<lambda>ks.
     seq (np_T k) (\<lambda>kt.
     seq (np_matmul ks kt) (\<lambda>ksk. np_subtract p ksk)))"

text \<open>\<^verbatim>\<open>KalmanUpdater.update\<close>, which both subclasses inherit.\<close>

definition update :: "stonesoup_functions \<Rightarrow> updater \<Rightarrow> single_hypothesis \<Rightarrow> gaussian_state_update comp" where
  "update fns self hyp =
     (let predicted_state = prediction hyp;
          measurement_model1 =
            (case measurement_model (measurement hyp) of
               None \<Rightarrow> self_measurement_model self | Some m \<Rightarrow> Some m)
      in seq (predict_measurement fns self predicted_state measurement_model1) (\<lambda>gmp.
         seq (kalman_gain (cross_covar gmp) (covar gmp)) (\<lambda>k.
         seq (posterior_mean (state_vector predicted_state) k
                (state_vector (measurement hyp)) (state_vector gmp)) (\<lambda>mean.
         seq (posterior_covariance (covar predicted_state) k (covar gmp)) (\<lambda>cov.
           ret \<lparr>state_vector = mean,
                timestamp = timestamp (measurement hyp),
                covar = cov,
                hypothesis = hyp\<rparr>)))))"

section \<open>Sample collaborators and inputs\<close>

text \<open>
  Modelled from the spec: the linear Gaussian model of \<^verbatim>\<open>stonesoup.models\<close> (not part of the
  source) with observation matrix \<open>H\<close> and noise covariance \<open>R\<close>: \<open>function\<close> is
  \<open>H x + noise\<close>, a list \<open>noise\<close> being broadcast as a row.
\<close>

definition linear_gaussian :: "ndarray \<Rightarrow> ndarray \<Rightarrow> model" where
  "linear_gaussian H R =
     \<lparr>mm_function = (\<lambda>x noise.
        case matmul H x of
          Inl e \<Rightarrow> Inl e
        | Inr hx \<Rightarrow> (case noise of None \<Rightarrow> Inr hx | Some w \<Rightarrow> elementwise (+) hx [w])),
      mm_covar = R,
      mm_matrix = Some H,
      mm_jacobian = None\<rparr>"

text \<open>
  The scenario of the spec's exact numeric test: a one-dimensional state with predicted mean
  \<open>[0]\<close> and covariance \<open>[[1]]\<close>, the linear model \<open>H = [[1]]\<close>, \<open>R = [[1]]\<close>
  configured on a \<^verbatim>\<open>KalmanUpdater\<close>, and the measurement \<open>z = [2]\<close>.
\<close>

definition scenario_model :: model where
  "scenario_model = linear_gaussian [[1]] [[1]]"

definition scenario_updater :: updater where
  "scenario_updater =
     \<lparr>updater_class = KalmanUpdater, self_measurement_model = Some scenario_model,
      alpha = 1 / 2, beta = 2, kappa = 0\<rparr>"

definition scenario_hypothesis :: single_hypothesis where
  "scenario_hypothesis =
     \<lparr>prediction = \<lparr>state_vector = [[0]], timestamp = 0, covar = [[1]]\<rparr>,
      measurement = \<lparr>state_vector = [[2]], timestamp = 1, measurement_model = None\<rparr>\<rparr>"

text \<open>
  A hypothesis of the same scenario whose measurement carries the model itself, and a second
  linear model with \<open>H = [[2]]\<close> that tells the two apart.
\<close>

definition other_model :: model where
  "other_model = linear_gaussian [[2]] [[3]]"

definition attached_hypothesis :: single_hypothesis where
  "attached_hypothesis =
     \<lparr>prediction = \<lparr>state_vector = [[0]], timestamp = 0, covar = [[1]]\<rparr>,
      measurement = \<lparr>state_vector = [[2]], timestamp = 1,
                     measurement_model = Some scenario_model\<rparr>\<rparr>"

text \<open>
  A sample instance of the two collaborators of the unscented updater, used where a closed
  instance is needed: one sigma point at the mean with weight one.
\<close>

definition sample_functions :: stonesoup_functions where
  "sample_functions =
     \<lparr>gauss2sigma = (\<lambda>mean cov a b k. Inr (mean, [[1]], [[1]])),
      unscented_transform = (\<lambda>points mean_weights covar_weights f covar_noise.
        case f points None of
          Inl e \<Rightarrow> Inl e
        | Inr z \<Rightarrow> Inr (z, covar_noise, mk_mat (nrows points) (nrows z) (\<lambda>i j. 0)))\<rparr>"

text \<open>
  Updaters constructed without a measurement model, and a predicted state away from the
  origin.
\<close>

definition unconfigured :: "updater_class \<Rightarrow> updater" where
  "unconfigured c =
     \<lparr>updater_class = c, self_measurement_model = None, alpha = 1 / 2, beta = 2, kappa = 0\<rparr>"

definition moved_state :: gaussian_state where
  "moved_state = \<lparr>state_vector = [[3]], timestamp = 0, covar = [[1]]\<rparr>"

text \<open>
  A two-dimensional scenario: the state is observed directly (\<open>H = I\<close>, \<open>R = I\<close>), the
  predicted covariance has correlated components.
\<close>

definition planar_model :: model where
  "planar_model = linear_gaussian [[1, 0], [0, 1]] [[1, 0], [0, 1]]"

definition planar_updater :: updater where
  "planar_updater =
     \<lparr>updater_class = KalmanUpdater, self_measurement_model = Some planar_model,
      alpha = 1 / 2, beta = 2, kappa = 0\<rparr>"

definition planar_hypothesis :: single_hypothesis where
  "planar_hypothesis =
     \<lparr>prediction = \<lparr>state_vector = [[0], [0]], timestamp = 0, covar = [[2, 1], [1, 2]]\<rparr>,
      measurement = \<lparr>state_vector = [[8], [0]], timestamp = 1, measurement_model = None\<rparr>\<rparr>"

section \<open>Evaluation\<close>

lemmas comp_defs = ret_def raise_def perform_def seq_def

lemmas array_defs = nrows_def ncols_def mk_mat_def mT_def mm_def bcompat_def bdim_def bidx_def
  broadcast2_def elementwise_def matmul_def np_matmul_def np_T_def np_add_def np_subtract_def

lemmas inv_defs = scale_row_def sub_row_def eliminate_def identity_def linalg_inv_def
  np_linalg_inv_def

lemmas updater_defs = measurement_matrix_def predict_measurement_def kalman_gain_def
  posterior_mean_def posterior_covariance_def update_def

lemmas scenario_defs = linear_gaussian_def scenario_model_def scenario_updater_def
  scenario_hypothesis_def

lemmas planar_defs = linear_gaussian_def planar_model_def planar_updater_def planar_hypothesis_def

lemmas sample_defs = scenario_defs sample_functions_def other_model_def attached_hypothesis_def
  unconfigured_def moved_state_def

section \<open>Arrays of a given shape\<close>

lemma length_mk_mat [simp]: "length (mk_mat r c f) = r"
  by (simp add: mk_mat_def)

lemma nth_mk_mat_row [simp]: "i < r \<Longrightarrow> mk_mat r c f ! i = map (f i) [0..<c]"
  by (simp add: mk_mat_def)

lemma nth_mk_mat: "i < r \<Longrightarrow> j < c \<Longrightarrow> mk_mat r c f ! i ! j = f i j"
  by simp

lemma is_mat_iff: "is_mat r c A \<longleftrightarrow> length A = r \<and> (\<forall>i<r. length (A ! i) = c)"
  by (auto simp: is_mat_def list_all_length)

lemma is_mat_mk_mat [simp]: "is_mat r c (mk_mat r c f)"
  by (simp add: is_mat_iff)

lemma is_mat_nrows: "is_mat r c A \<Longrightarrow> nrows A = r"
  by (simp add: is_mat_def nrows_def)

lemma is_mat_ncols: "is_mat r c A \<Longrightarrow> 0 < r \<Longrightarrow> ncols A = c"
  by (cases A) (auto simp: is_mat_def ncols_def)

lemma mat_eqI:
  assumes "is_mat r c A" "is_mat r c B"
    and "\<And>i j. i < r \<Longrightarrow> j < c \<Longrightarrow> A ! i ! j = B ! i ! j"
  shows "A = B"
proof (rule nth_equalityI)
  show "length A = length B" using assms(1,2) by (simp add: is_mat_iff)
next
  fix i assume i: "i < length A"
  then have ir: "i < r" using assms(1) by (simp add: is_mat_iff)
  show "A ! i = B ! i"
  proof (rule nth_equalityI)
    show "length (A ! i) = length (B ! i)" using assms(1,2) ir by (simp add: is_mat_iff)
  next
    fix j assume "j < length (A ! i)"
    then have "j < c" using assms(1) ir by (simp add: is_mat_iff)
    then show "A ! i ! j = B ! i ! j" using assms(3) ir by simp
  qed
qed

lemma mm_is_mat: "is_mat r k A \<Longrightarrow> is_mat k c B \<Longrightarrow> 0 < k \<Longrightarrow> is_mat r c (mm A B)"
  by (simp add: mm_def is_mat_nrows is_mat_ncols)

lemma mm_nth:
  "is_mat r k A \<Longrightarrow> is_mat k c B \<Longrightarrow> 0 < k \<Longrightarrow> i < r \<Longrightarrow> j < c \<Longrightarrow>
     mm A B ! i ! j = (\<Sum>l<k. A ! i ! l * B ! l ! j)"
  by (cases "r = 0") (simp_all add: mm_def is_mat_nrows is_mat_ncols)

lemma mT_is_mat: "is_mat r c A \<Longrightarrow> 0 < r \<Longrightarrow> is_mat c r (mT A)"
  by (simp add: mT_def is_mat_nrows is_mat_ncols)

lemma mT_nth: "is_mat r c A \<Longrightarrow> 0 < r \<Longrightarrow> i < c \<Longrightarrow> j < r \<Longrightarrow> mT A ! i ! j = A ! j ! i"
  by (simp add: mT_def is_mat_nrows is_mat_ncols)

lemma broadcast2_same:
  "is_mat r c A \<Longrightarrow> is_mat r c B \<Longrightarrow> 0 < r \<Longrightarrow>
     broadcast2 f A B = mk_mat r c (\<lambda>i j. f (A ! i ! j) (B ! i ! j))"
  by (rule mat_eqI[of r c]) (auto simp: broadcast2_def is_mat_nrows is_mat_ncols bdim_def bidx_def)

lemma elementwise_same:
  "is_mat r c A \<Longrightarrow> is_mat r c B \<Longrightarrow> 0 < r \<Longrightarrow> elementwise f A B = Inr (broadcast2 f A B)"
  by (simp add: elementwise_def bcompat_def is_mat_nrows is_mat_ncols)

lemma broadcast2_is_mat:
  "is_mat r c A \<Longrightarrow> is_mat r c B \<Longrightarrow> 0 < r \<Longrightarrow> is_mat r c (broadcast2 f A B)"
  by (simp add: broadcast2_same)

lemma broadcast2_nth:
  "is_mat r c A \<Longrightarrow> is_mat r c B \<Longrightarrow> i < r \<Longrightarrow> j < c \<Longrightarrow>
     broadcast2 f A B ! i ! j = f (A ! i ! j) (B ! i ! j)"
  by (cases "r = 0") (simp_all add: broadcast2_same)

lemma matmul_ok:
  "is_mat r k A \<Longrightarrow> is_mat k c B \<Longrightarrow> 0 < r \<Longrightarrow> matmul A B = Inr (mm A B)"
  by (simp add: matmul_def is_mat_nrows is_mat_ncols)

section \<open>Correctness of the inversion\<close>

lemma find_pivot_Some:
  "find_pivot j rows = Some (p, rest) \<Longrightarrow>
     fst p ! j \<noteq> 0 \<and> set rows = insert p (set rest) \<and> length rows = Suc (length rest)"
proof (induction rows arbitrary: p rest)
  case Nil
  then show ?case by simp
next
  case (Cons r rs)
  show ?case
  proof (cases "fst r ! j = 0")
    case True
    with Cons.prems obtain rest' where f: "find_pivot j rs = Some (p, rest')" and r: "rest = r # rest'"
      by (auto split: option.splits)
    from Cons.IH[OF f] r show ?thesis by auto
  next
    case False
    with Cons.prems show ?thesis by auto
  qed
qed

lemma find_pivot_None: "find_pivot j rows = None \<Longrightarrow> r \<in> set rows \<Longrightarrow> fst r ! j = 0"
  by (induction rows) (auto split: if_splits option.splits)

lemma dotp_scale: "dotp (map ((*) c) u) v = c * dotp u v"
  by (simp add: dotp_def sum_distrib_left mult.assoc)

lemma dotp_sub:
  "length u = length w \<Longrightarrow> dotp (map2 (\<lambda>a b. a - c * b) u w) v = dotp u v - c * dotp w v"
  by (simp add: dotp_def sum_distrib_left sum_subtractf algebra_simps)

lemma vecmat_scale: "vecmat (map ((*) c) y) A = map ((*) c) (vecmat y A)"
  by (simp add: vecmat_def sum_distrib_left mult.assoc)

lemma vecmat_sub:
  "length y = length w \<Longrightarrow>
     vecmat (map2 (\<lambda>a b. a - c * b) y w) A = map2 (\<lambda>a b. a - c * b) (vecmat y A) (vecmat w A)"
  by (rule nth_equalityI) (simp_all add: vecmat_def sum_distrib_left sum_subtractf algebra_simps)

lemma row_ok_scale: "row_ok n A r \<Longrightarrow> row_ok n A (scale_row c r)"
  by (auto simp: row_ok_def scale_row_def vecmat_scale)

lemma row_ok_sub: "row_ok n A q \<Longrightarrow> row_ok n A r \<Longrightarrow> row_ok n A (sub_row c q r)"
  by (auto simp: row_ok_def sub_row_def vecmat_sub)

lemma row_ok_eliminate: "row_ok n A q \<Longrightarrow> row_ok n A r \<Longrightarrow> row_ok n A (eliminate j q r)"
  by (simp add: eliminate_def row_ok_sub)

lemma fst_scale_nth: "j < length (fst r) \<Longrightarrow> fst (scale_row c r) ! j = c * fst r ! j"
  by (simp add: scale_row_def)

lemma fst_eliminate_nth:
  "length (fst q) = length (fst r) \<Longrightarrow> c < length (fst r) \<Longrightarrow>
     fst (eliminate j q r) ! c = fst r ! c - fst r ! j * fst q ! c"
  by (simp add: eliminate_def sub_row_def)

lemma dotp_fst_scale: "dotp (fst (scale_row c r)) v = c * dotp (fst r) v"
  by (simp add: scale_row_def dotp_scale)

lemma dotp_fst_eliminate:
  "length (fst q) = length (fst r) \<Longrightarrow>
     dotp (fst (eliminate j q r)) v = dotp (fst r) v - fst r ! j * dotp (fst q) v"
  by (simp add: eliminate_def sub_row_def dotp_sub)

lemma step_unit_form:
  assumes len: "\<forall>r\<in>set (piv @ todo). length (fst r) = n"
    and j: "length piv < n"
    and uf: "unit_form piv todo"
    and p: "p \<in> set todo" "fst p ! length piv \<noteq> 0"
    and rest: "set rest \<subseteq> set todo"
  shows "unit_form (map (eliminate (length piv) (scale_row (1 / fst p ! length piv) p)) piv
                      @ [scale_row (1 / fst p ! length piv) p])
                   (map (eliminate (length piv) (scale_row (1 / fst p ! length piv) p)) rest)"
proof -
  let ?j = "length piv"
  let ?q = "scale_row (1 / fst p ! ?j) p"
  have lp: "length (fst p) = n" using len p(1) by simp
  have lq: "length (fst ?q) = n" using lp by (simp add: scale_row_def)
  have q_lt: "fst ?q ! c = 0" if "c < ?j" for c
  proof -
    have "fst p ! c = 0" using uf p(1) that by (simp add: unit_form_def)
    then show ?thesis using that j lp by (simp add: fst_scale_nth)
  qed
  have q_j: "fst ?q ! ?j = 1" using p(2) j lp by (simp add: fst_scale_nth)
  have piv_new: "fst (eliminate ?j ?q (piv ! i)) ! c = (if c = i then 1 else 0)"
    if "i < ?j" "c \<le> ?j" for i c
  proof -
    have li: "length (fst (piv ! i)) = n" using len that(1) by simp
    have e: "fst (eliminate ?j ?q (piv ! i)) ! c
               = fst (piv ! i) ! c - fst (piv ! i) ! ?j * fst ?q ! c"
      using li lq that(2) j by (simp add: fst_eliminate_nth)
    show ?thesis
    proof (cases "c = ?j")
      case True
      then show ?thesis using e q_j that(1) by simp
    next
      case False
      then have "c < ?j" using that(2) by simp
      then show ?thesis using e q_lt[of c] uf that(1) by (simp add: unit_form_def)
    qed
  qed
  have todo_new: "fst (eliminate ?j ?q r) ! c = 0" if "r \<in> set rest" "c \<le> ?j" for r c
  proof -
    have rt: "r \<in> set todo" using rest that(1) by auto
    have lr: "length (fst r) = n" using len rt by simp
    have e: "fst (eliminate ?j ?q r) ! c = fst r ! c - fst r ! ?j * fst ?q ! c"
      using lr lq that(2) j by (simp add: fst_eliminate_nth)
    show ?thesis
    proof (cases "c = ?j")
      case True
      then show ?thesis using e q_j by simp
    next
      case False
      then have c: "c < ?j" using that(2) by simp
      then have "fst r ! c = 0" using uf rt by (simp add: unit_form_def)
      then show ?thesis using e q_lt[OF c] by simp
    qed
  qed
  have q_new: "fst ?q ! c = (if c = ?j then 1 else 0)" if "c \<le> ?j" for c
    using q_lt[of c] q_j that by (cases "c = ?j") simp_all
  show ?thesis
    unfolding unit_form_def
  proof (intro conjI allI impI ballI)
    fix i c
    assume i: "i < length (map (eliminate ?j ?q) piv @ [?q])"
      and c: "c < length (map (eliminate ?j ?q) piv @ [?q])"
    then have cj: "c \<le> ?j" and ij: "i \<le> ?j" by simp_all
    show "fst ((map (eliminate ?j ?q) piv @ [?q]) ! i) ! c = (if c = i then 1 else 0)"
    proof (cases "i < ?j")
      case True
      then show ?thesis using piv_new[OF True cj] by (simp add: nth_append)
    next
      case False
      then have "i = ?j" using ij by simp
      then show ?thesis using q_new[OF cj] by (simp add: nth_append)
    qed
  next
    fix r c
    assume r: "r \<in> set (map (eliminate ?j ?q) rest)"
      and c: "c < length (map (eliminate ?j ?q) piv @ [?q])"
    then have cj: "c \<le> ?j" by simp
    from r obtain r0 where "r0 \<in> set rest" "r = eliminate ?j ?q r0" by auto
    then show "fst r ! c = 0" using todo_new[OF _ cj] by simp
  qed
qed

lemma step_annihilates:
  assumes len: "\<forall>r\<in>set (piv @ todo). length (fst r) = n"
    and p: "fst p ! j \<noteq> 0"
    and sets: "set todo = insert p (set rest)"
  shows "annihilates (map (eliminate j (scale_row (1 / fst p ! j) p)) piv
                        @ [scale_row (1 / fst p ! j) p]
                        @ map (eliminate j (scale_row (1 / fst p ! j) p)) rest) v
         \<longleftrightarrow> annihilates (piv @ todo) v"
proof -
  let ?q = "scale_row (1 / fst p ! j) p"
  have lp: "length (fst p) = n" using len sets by simp
  have lq: "length (fst ?q) = n" using lp by (simp add: scale_row_def)
  have dq: "dotp (fst ?q) v = (1 / fst p ! j) * dotp (fst p) v"
    by (rule dotp_fst_scale)
  have q0: "dotp (fst ?q) v = 0 \<longleftrightarrow> dotp (fst p) v = 0"
    using p by (simp add: dq)
  have el: "dotp (fst (eliminate j ?q r)) v = dotp (fst r) v - fst r ! j * dotp (fst ?q) v"
    if "r \<in> set piv \<union> set rest" for r
  proof -
    have "length (fst r) = n" using len sets that by auto
    then show ?thesis using lq by (simp add: dotp_fst_eliminate)
  qed
  show ?thesis
  proof
    assume a: "annihilates (map (eliminate j ?q) piv @ [?q] @ map (eliminate j ?q) rest) v"
    then have qz: "dotp (fst ?q) v = 0" by (simp add: annihilates_def)
    have "dotp (fst r) v = 0" if "r \<in> set piv \<union> set rest" for r
    proof -
      have "dotp (fst (eliminate j ?q r)) v = 0" using a that by (auto simp: annihilates_def)
      then show ?thesis using el[OF that] qz by simp
    qed
    moreover have "dotp (fst p) v = 0" using qz q0 by simp
    ultimately show "annihilates (piv @ todo) v" using sets by (auto simp: annihilates_def)
  next
    assume a: "annihilates (piv @ todo) v"
    then have pz: "dotp (fst p) v = 0" using sets by (simp add: annihilates_def)
    then have qz: "dotp (fst ?q) v = 0" using q0 by simp
    have "dotp (fst (eliminate j ?q r)) v = 0" if "r \<in> set piv \<union> set rest" for r
    proof -
      have "dotp (fst r) v = 0" using a sets that by (auto simp: annihilates_def)
      then show ?thesis using el[OF that] qz by simp
    qed
    then show "annihilates (map (eliminate j ?q) piv @ [?q] @ map (eliminate j ?q) rest) v"
      using qz by (auto simp: annihilates_def)
  qed
qed

lemma gj_inv_step:
  assumes inv: "gj_inv n A piv todo"
    and fp: "find_pivot (length piv) todo = Some (p, rest)"
  shows "gj_inv n A
           (map (eliminate (length piv) (scale_row (1 / fst p ! length piv) p)) piv
              @ [scale_row (1 / fst p ! length piv) p])
           (map (eliminate (length piv) (scale_row (1 / fst p ! length piv) p)) rest)"
proof -
  let ?j = "length piv"
  let ?q = "scale_row (1 / fst p ! ?j) p"
  from find_pivot_Some[OF fp]
  have pj: "fst p ! ?j \<noteq> 0" and sets: "set todo = insert p (set rest)"
    and lt: "length todo = Suc (length rest)" by simp_all
  from inv have ln: "length piv + length todo = n"
    and ok: "\<forall>r\<in>set (piv @ todo). row_ok n A r"
    and uf: "unit_form piv todo"
    and ker: "\<forall>v. annihilates (piv @ todo) v \<longleftrightarrow> (\<forall>a\<in>set A. dotp a v = 0)"
    by (simp_all add: gj_inv_def)
  have len: "\<forall>r\<in>set (piv @ todo). length (fst r) = n" using ok unfolding row_ok_def by blast
  have jn: "?j < n" using ln lt by simp
  have okp: "row_ok n A p" using ok sets by simp
  have okq: "row_ok n A ?q" using okp by (rule row_ok_scale)
  have 1: "length (map (eliminate ?j ?q) piv @ [?q]) + length (map (eliminate ?j ?q) rest) = n"
    using ln lt by simp
  have 2: "\<forall>r\<in>set ((map (eliminate ?j ?q) piv @ [?q]) @ map (eliminate ?j ?q) rest). row_ok n A r"
  proof
    fix r assume "r \<in> set ((map (eliminate ?j ?q) piv @ [?q]) @ map (eliminate ?j ?q) rest)"
    then consider "r = ?q" | r0 where "r0 \<in> set piv \<union> set rest" "r = eliminate ?j ?q r0"
      by auto
    then show "row_ok n A r"
    proof cases
      case 1
      then show ?thesis using okq by simp
    next
      case 2
      then have "row_ok n A r0" using ok sets by auto
      then show ?thesis using 2(2) okq by (simp add: row_ok_eliminate)
    qed
  qed
  have 3: "unit_form (map (eliminate ?j ?q) piv @ [?q]) (map (eliminate ?j ?q) rest)"
    using step_unit_form[OF len jn uf _ pj, of rest] sets by auto
  have 4: "\<forall>v. annihilates ((map (eliminate ?j ?q) piv @ [?q]) @ map (eliminate ?j ?q) rest) v
             \<longleftrightarrow> (\<forall>a\<in>set A. dotp a v = 0)"
    using step_annihilates[OF len pj sets] ker by simp
  show ?thesis unfolding gj_inv_def using 1 2 3 4 by blast
qed

lemma gauss_jordan_Some:
  "gauss_jordan k piv todo = Some res \<Longrightarrow> length todo = k \<Longrightarrow> gj_inv n A piv todo \<Longrightarrow>
     gj_inv n A res []"
proof (induction k arbitrary: piv todo)
  case 0
  then show ?case by simp
next
  case (Suc k)
  from Suc.prems(1) obtain p rest where fp: "find_pivot (length piv) todo = Some (p, rest)"
    by (auto split: option.splits)
  let ?q = "scale_row (1 / fst p ! length piv) p"
  from Suc.prems(1) fp
  have rec: "gauss_jordan k (map (eliminate (length piv) ?q) piv @ [?q])
               (map (eliminate (length piv) ?q) rest) = Some res"
    by (simp add: Let_def)
  have "length rest = k" using find_pivot_Some[OF fp] Suc.prems(2) by simp
  then have "length (map (eliminate (length piv) ?q) rest) = k" by simp
  from Suc.IH[OF rec this gj_inv_step[OF Suc.prems(3) fp]] show ?case .
qed

lemma is_mat_square_ncols: "is_mat n n A \<Longrightarrow> ncols A = n"
  by (cases A) (auto simp: is_mat_def ncols_def)

lemma sum_delta_lt: "i < (n::nat) \<Longrightarrow> (\<Sum>k<n. (if k = i then 1 else 0) * f k) = (f i :: real)"
proof -
  assume i: "i < n"
  have "(\<Sum>k<n. (if k = i then 1 else 0) * f k) = (\<Sum>k\<in>{..<n}. if k = i then f k else 0)"
    by (rule sum.cong) simp_all
  also have "\<dots> = f i" using i by simp
  finally show ?thesis .
qed

lemma identity_row: "i < n \<Longrightarrow> identity n ! i = map (\<lambda>c. if i = c then 1 else 0) [0..<n]"
  by (simp add: identity_def)

lemma vecmat_identity_row:
  assumes A: "is_mat n n A" and i: "i < n"
  shows "vecmat (identity n ! i) A = A ! i"
proof (rule nth_equalityI)
  show "length (vecmat (identity n ! i) A) = length (A ! i)"
    using A i by (simp add: vecmat_def is_mat_square_ncols is_mat_iff)
next
  fix j assume "j < length (vecmat (identity n ! i) A)"
  then have j: "j < n" using A by (simp add: vecmat_def is_mat_square_ncols)
  have "(\<Sum>k<n. (if i = k then 1 else 0) * A ! k ! j) = (\<Sum>k<n. (if k = i then 1 else 0) * A ! k ! j)"
    by (rule sum.cong) auto
  also have "\<dots> = A ! i ! j" using i by (rule sum_delta_lt)
  finally show "vecmat (identity n ! i) A ! j = A ! i ! j"
    using A i j by (simp add: vecmat_def is_mat_square_ncols identity_row)
qed

lemma gj_inv_init:
  assumes A: "is_mat n n A"
  shows "gj_inv n A [] (zip A (identity n))"
proof -
  have lA: "length A = n" using A by (simp add: is_mat_iff)
  have lI: "length (identity n) = n" by (simp add: identity_def)
  have rows: "row_ok n A r" if "r \<in> set (zip A (identity n))" for r
  proof -
    from that obtain i where i: "i < n" and r: "r = (A ! i, identity n ! i)"
      using lA lI by (auto simp: set_zip)
    show ?thesis
      using A i vecmat_identity_row[OF A i] by (simp add: row_ok_def r is_mat_iff identity_row)
  qed
  have fsts: "fst ` set (zip A (identity n)) = set A"
  proof -
    have "map fst (zip A (identity n)) = A" using lA lI by simp
    then have "set (map fst (zip A (identity n))) = set A" by simp
    then show ?thesis by simp
  qed
  have ker: "annihilates ([] @ zip A (identity n)) v \<longleftrightarrow> (\<forall>a\<in>set A. dotp a v = 0)" for v
  proof -
    have "annihilates ([] @ zip A (identity n)) v
            \<longleftrightarrow> (\<forall>a\<in>fst ` set (zip A (identity n)). dotp a v = 0)"
      by (simp add: annihilates_def)
    then show ?thesis by (simp only: fsts)
  qed
  show ?thesis
    unfolding gj_inv_def using lA lI rows ker by (simp add: unit_form_def)
qed

lemma gj_inv_final_fst:
  assumes "gj_inv n A res []" and "i < n"
  shows "fst (res ! i) = identity n ! i"
proof (rule nth_equalityI)
  have ri: "res ! i \<in> set res" using assms by (simp add: gj_inv_def)
  then have "row_ok n A (res ! i)" using assms(1) by (simp add: gj_inv_def)
  then have l: "length (fst (res ! i)) = n" unfolding row_ok_def by blast
  then show "length (fst (res ! i)) = length (identity n ! i)"
    using assms(2) by (simp add: identity_row)
  fix c assume "c < length (fst (res ! i))"
  then have c: "c < n" using l by simp
  have "length res = n" using assms(1) by (simp add: gj_inv_def)
  then have "fst (res ! i) ! c = (if c = i then 1 else 0)"
    using assms c by (simp add: gj_inv_def unit_form_def)
  then show "fst (res ! i) ! c = identity n ! i ! c"
    using assms(2) c by (auto simp: identity_row)
qed

lemma dotp_identity_row: "i < n \<Longrightarrow> dotp (identity n ! i) v = v ! i"
proof -
  assume i: "i < n"
  have "dotp (identity n ! i) v = (\<Sum>k<n. (if k = i then 1 else 0) * v ! k)"
    unfolding dotp_def using i by (auto simp: identity_row intro!: sum.cong)
  then show ?thesis using sum_delta_lt[OF i, of "\<lambda>k. v ! k"] by simp
qed

lemma gj_inv_final_kernel:
  assumes inv: "gj_inv n A res []" and z: "\<forall>a\<in>set A. dotp a v = 0" and i: "i < n"
  shows "v ! i = 0"
proof -
  have "annihilates res v" using inv z by (simp add: gj_inv_def)
  moreover have "res ! i \<in> set res" using inv i by (simp add: gj_inv_def)
  ultimately have "dotp (fst (res ! i)) v = 0" by (simp add: annihilates_def)
  then show ?thesis using gj_inv_final_fst[OF inv i] dotp_identity_row[OF i] by simp
qed

lemma gj_inv_final_inverse:
  assumes A: "is_mat n n A" and inv: "gj_inv n A res []"
  shows "is_mat n n (map snd res) \<and> mm (map snd res) A = identity n"
proof -
  have lr: "length res = n" using inv by (simp add: gj_inv_def)
  have ok: "row_ok n A (res ! i)" if "i < n" for i
    using inv lr that by (simp add: gj_inv_def)
  have B: "is_mat n n (map snd res)"
    unfolding is_mat_iff using lr ok unfolding row_ok_def by simp
  have "mm (map snd res) A = identity n"
  proof (rule mat_eqI[of n n])
    show "is_mat n n (mm (map snd res) A)"
    proof (cases "n = 0")
      case True
      then show ?thesis using lr by (simp add: mm_def nrows_def is_mat_iff)
    next
      case False
      then show ?thesis using mm_is_mat[OF B A] by simp
    qed
    show "is_mat n n (identity n)" by (simp add: identity_def)
    fix i j assume i: "i < n" and j: "j < n"
    have "fst (res ! i) = vecmat (snd (res ! i)) A" using ok[OF i] unfolding row_ok_def by blast
    moreover have "length (snd (res ! i)) = n" using ok[OF i] unfolding row_ok_def by blast
    ultimately have "identity n ! i ! j = (\<Sum>k<n. snd (res ! i) ! k * A ! k ! j)"
      using gj_inv_final_fst[OF inv i] A j by (simp add: vecmat_def is_mat_square_ncols)
    moreover have "mm (map snd res) A ! i ! j = (\<Sum>k<n. map snd res ! i ! k * A ! k ! j)"
      using mm_nth[OF B A _ i j] i by simp
    ultimately show "mm (map snd res) A ! i ! j = identity n ! i ! j"
      using i lr by simp
  qed
  with B show ?thesis by simp
qed

lemma sum_two_points:
  assumes "i < (n::nat)" "j < n" "i \<noteq> j"
  shows "(\<Sum>k<n. if k = i then a else if k = j then b else (0::real)) = a + b"
proof -
  have "(\<Sum>k<n. if k = i then a else if k = j then b else 0)
          = (\<Sum>k<n. (if k = i then a else 0) + (if k = j then b else 0))"
    using assms(3) by (intro sum.cong) auto
  also have "\<dots> = (\<Sum>k<n. if k = i then a else 0) + (\<Sum>k<n. if k = j then b else 0)"
    by (rule sum.distrib)
  also have "\<dots> = a + b" using assms(1,2) by simp
  finally show ?thesis .
qed

lemma stuck_null_vector:
  assumes inv: "gj_inv n A piv todo"
    and j: "length piv < n"
    and stuck: "\<forall>r\<in>set todo. fst r ! length piv = 0"
  shows "\<exists>v. length v = n \<and> (\<exists>i<n. v ! i \<noteq> 0) \<and> (\<forall>a\<in>set A. dotp a v = 0)"
proof -
  let ?j = "length piv"
  define v where "v = map (\<lambda>c. if c < ?j then - fst (piv ! c) ! ?j
                                else if c = ?j then 1 else (0::real)) [0..<n]"
  have lv: "length v = n" by (simp add: v_def)
  have vj: "v ! ?j = 1" using j by (simp add: v_def)
  have len: "length (fst r) = n" if "r \<in> set (piv @ todo)" for r
  proof -
    have "row_ok n A r" using inv that by (simp add: gj_inv_def)
    then show ?thesis unfolding row_ok_def by blast
  qed
  have uf: "unit_form piv todo" using inv by (simp add: gj_inv_def)
  have todo0: "dotp (fst r) v = 0" if "r \<in> set todo" for r
  proof -
    have "fst r ! k * v ! k = 0" if "k < n" for k
    proof (cases "k \<le> ?j")
      case True
      then have "fst r ! k = 0"
        using uf stuck \<open>r \<in> set todo\<close> by (cases "k = ?j") (simp_all add: unit_form_def)
      then show ?thesis by simp
    next
      case False
      then show ?thesis using that by (simp add: v_def)
    qed
    then have "(\<Sum>k<n. fst r ! k * v ! k) = (\<Sum>k<n. 0)"
      by (intro sum.cong) simp_all
    then show ?thesis using len[of r] that by (simp add: dotp_def)
  qed
  have piv0: "dotp (fst (piv ! i)) v = 0" if "i < ?j" for i
  proof -
    let ?x = "fst (piv ! i)"
    have lx: "length ?x = n" using len[of "piv ! i"] that by simp
    have "?x ! k * v ! k = (if k = i then - ?x ! ?j else if k = ?j then ?x ! ?j else 0)"
      if k: "k < n" for k
    proof (cases "k < ?j")
      case True
      then have "?x ! k = (if k = i then 1 else 0)"
        using uf \<open>i < ?j\<close> by (simp add: unit_form_def)
      then show ?thesis using True k by (simp add: v_def)
    next
      case False
      then show ?thesis using k \<open>i < ?j\<close> by (auto simp: v_def)
    qed
    then have "dotp ?x v = (\<Sum>k<n. if k = i then - ?x ! ?j else if k = ?j then ?x ! ?j else 0)"
      unfolding dotp_def lx by (intro sum.cong) simp_all
    also have "\<dots> = - ?x ! ?j + ?x ! ?j"
      using that j by (intro sum_two_points) simp_all
    finally show ?thesis by simp
  qed
  have "annihilates (piv @ todo) v"
    unfolding annihilates_def
  proof
    fix r assume "r \<in> set (piv @ todo)"
    then consider i where "i < ?j" "r = piv ! i" | "r \<in> set todo"
      by (auto simp: in_set_conv_nth)
    then show "dotp (fst r) v = 0" using piv0 todo0 by cases simp_all
  qed
  then have "\<forall>a\<in>set A. dotp a v = 0" using inv by (simp add: gj_inv_def)
  moreover have "\<exists>i<n. v ! i \<noteq> 0" using vj j by (intro exI[of _ ?j]) simp
  ultimately show ?thesis using lv by blast
qed

lemma gauss_jordan_None:
  "gauss_jordan k piv todo = None \<Longrightarrow> length todo = k \<Longrightarrow> gj_inv n A piv todo \<Longrightarrow>
     \<exists>v. length v = n \<and> (\<exists>i<n. v ! i \<noteq> 0) \<and> (\<forall>a\<in>set A. dotp a v = 0)"
proof (induction k arbitrary: piv todo)
  case 0
  then show ?case by simp
next
  case (Suc k)
  show ?case
  proof (cases "find_pivot (length piv) todo")
    case None
    have "length piv < n" using Suc.prems(2,3) by (simp add: gj_inv_def)
    moreover have "\<forall>r\<in>set todo. fst r ! length piv = 0"
      using find_pivot_None[OF None] by blast
    ultimately show ?thesis using stuck_null_vector[OF Suc.prems(3)] by blast
  next
    case (Some pr)
    obtain p rest where pr: "pr = (p, rest)" by (cases pr)
    let ?q = "scale_row (1 / fst p ! length piv) p"
    have fp: "find_pivot (length piv) todo = Some (p, rest)" using Some pr by simp
    from Suc.prems(1) fp
    have rec: "gauss_jordan k (map (eliminate (length piv) ?q) piv @ [?q])
                 (map (eliminate (length piv) ?q) rest) = None"
      by (simp add: Let_def)
    have "length rest = k" using find_pivot_Some[OF fp] Suc.prems(2) by simp
    then have "length (map (eliminate (length piv) ?q) rest) = k" by simp
    from Suc.IH[OF rec this gj_inv_step[OF Suc.prems(3) fp]] show ?thesis .
  qed
qed

lemma linalg_inv_error: "linalg_inv A = Inl e \<Longrightarrow> e = LinAlgError"
  by (auto simp: linalg_inv_def split: if_splits option.splits)

lemma linalg_inv_Inr:
  assumes A: "is_mat n n A" and r: "linalg_inv A = Inr B"
  shows "is_mat n n B" and "mm B A = identity n" and "\<not> singular A"
proof -
  have nr: "nrows A = n" "ncols A = n"
    using A by (simp_all add: is_mat_nrows is_mat_square_ncols)
  from r nr obtain res where gj: "gauss_jordan n [] (zip A (identity n)) = Some res"
    and B: "B = map snd res"
    by (auto simp: linalg_inv_def split: option.splits)
  have "length (zip A (identity n)) = n" using A by (simp add: is_mat_iff identity_def)
  from gauss_jordan_Some[OF gj this gj_inv_init[OF A]] have fin: "gj_inv n A res []" .
  from gj_inv_final_inverse[OF A fin] B show "is_mat n n B" and "mm B A = identity n"
    by simp_all
  show "\<not> singular A"
  proof
    assume "singular A"
    then obtain v where "null_vector A v" using nr by (auto simp: singular_def)
    then obtain i where "i < n" "v ! i \<noteq> 0" and z: "\<forall>a\<in>set A. dotp a v = 0"
      using nr by (auto simp: null_vector_def)
    then show False using gj_inv_final_kernel[OF fin z] by blast
  qed
qed

lemma linalg_inv_Inl:
  assumes A: "is_mat n n A" and r: "linalg_inv A = Inl e"
  shows "singular A"
proof -
  have nr: "nrows A = n" "ncols A = n"
    using A by (simp_all add: is_mat_nrows is_mat_square_ncols)
  from r nr have gj: "gauss_jordan n [] (zip A (identity n)) = None"
    by (auto simp: linalg_inv_def split: option.splits)
  have "length (zip A (identity n)) = n" using A by (simp add: is_mat_iff identity_def)
  from gauss_jordan_None[OF gj this gj_inv_init[OF A]]
  obtain v where "length v = n" "\<exists>i<n. v ! i \<noteq> 0" "\<forall>a\<in>set A. dotp a v = 0" by blast
  then have "null_vector A v" using nr by (simp add: null_vector_def)
  then show ?thesis by (auto simp: singular_def)
qed

lemma linalg_inv_singular_iff:
  "is_mat n n A \<Longrightarrow> linalg_inv A = Inl LinAlgError \<longleftrightarrow> singular A"
  using linalg_inv_Inl linalg_inv_Inr(3) linalg_inv_error
  by (cases "linalg_inv A") auto

lemma linalg_inv_not_square: "nrows A \<noteq> ncols A \<Longrightarrow> linalg_inv A = Inl LinAlgError"
  by (simp add: linalg_inv_def)













section \<open>Outcomes of the instrumented computations\<close>

lemma snd_ret [simp]: "snd (ret x) = Inr x" by (simp add: ret_def)
lemma fst_ret [simp]: "fst (ret x) = []" by (simp add: ret_def)
lemma snd_raise [simp]: "snd (raise e) = Inl e" by (simp add: raise_def)
lemma fst_raise [simp]: "fst (raise e) = []" by (simp add: raise_def)
lemma snd_perform [simp]: "snd (perform c r) = r" by (simp add: perform_def)
lemma fst_perform [simp]: "fst (perform c r) = [c]" by (simp add: perform_def)

lemma snd_seq: "snd (seq m f) = (case snd m of Inl e \<Rightarrow> Inl e | Inr x \<Rightarrow> snd (f x))"
  by (simp add: seq_def split: sum.splits)

lemma fst_seq: "fst (seq m f) = (case snd m of Inl e \<Rightarrow> fst m | Inr x \<Rightarrow> fst m @ fst (f x))"
  by (simp add: seq_def split: sum.splits)

lemma snd_seq_eq_Inr:
  "snd (seq m f) = Inr y \<longleftrightarrow> (\<exists>x. snd m = Inr x \<and> snd (f x) = Inr y)"
  by (simp add: snd_seq split: sum.splits)

lemma snd_np_matmul [simp]: "snd (np_matmul A B) = matmul A B" by (simp add: np_matmul_def)
lemma snd_np_T [simp]: "snd (np_T A) = Inr (mT A)" by (simp add: np_T_def)
lemma snd_np_add [simp]: "snd (np_add A B) = elementwise (+) A B" by (simp add: np_add_def)
lemma snd_np_subtract [simp]: "snd (np_subtract A B) = elementwise (-) A B" by (simp add: np_subtract_def)
lemma snd_np_linalg_inv [simp]: "snd (np_linalg_inv A) = linalg_inv A" by (simp add: np_linalg_inv_def)

lemma matmul_Inr: "matmul A B = Inr C \<Longrightarrow> C = mm A B"
  by (simp add: matmul_def split: if_splits)

lemma elementwise_Inr: "elementwise f A B = Inr C \<Longrightarrow> C = broadcast2 f A B"
  by (simp add: elementwise_def split: if_splits)

lemma kalman_gain_Inr:
  "snd (kalman_gain pxz s) = Inr k \<longleftrightarrow> (\<exists>si. linalg_inv s = Inr si \<and> matmul pxz si = Inr k)"
  by (simp add: kalman_gain_def snd_seq_eq_Inr)

lemma posterior_covariance_Inr:
  "snd (posterior_covariance p k s) = Inr c \<Longrightarrow> c = broadcast2 (-) p (mm (mm k s) (mT k))"
  by (auto simp: posterior_covariance_def snd_seq_eq_Inr dest!: matmul_Inr elementwise_Inr)

lemma posterior_mean_Inr:
  "snd (posterior_mean x k z zp) = Inr c \<Longrightarrow> c = broadcast2 (+) x (mm k (broadcast2 (-) z zp))"
  by (auto simp: posterior_mean_def snd_seq_eq_Inr dest!: matmul_Inr elementwise_Inr)

lemma update_Inr:
  assumes "snd (update fns self hyp) = Inr post"
  shows "\<exists>gmp si.
    snd (predict_measurement fns self (prediction hyp)
           (case measurement_model (measurement hyp) of
              None \<Rightarrow> self_measurement_model self | Some m \<Rightarrow> Some m)) = Inr gmp \<and>
    linalg_inv (covar gmp) = Inr si \<and>
    post = \<lparr>state_vector = broadcast2 (+) (state_vector (prediction hyp))
               (mm (mm (cross_covar gmp) si)
                  (broadcast2 (-) (state_vector (measurement hyp)) (state_vector gmp))),
            timestamp = timestamp (measurement hyp),
            covar = broadcast2 (-) (covar (prediction hyp))
               (mm (mm (mm (cross_covar gmp) si) (covar gmp)) (mT (mm (cross_covar gmp) si))),
            hypothesis = hyp\<rparr>"
  using assms
  by (auto simp: update_def Let_def snd_seq_eq_Inr kalman_gain_Inr
      dest!: posterior_covariance_Inr posterior_mean_Inr matmul_Inr)

section \<open>Algebra of the posterior covariance\<close>

lemma ksk_nth:
  assumes K: "is_mat n m K" and S: "is_mat m m S" and pos: "0 < n" "0 < m"
    and i: "i < n" and j: "j < n"
  shows "mm (mm K S) (mT K) ! i ! j = (\<Sum>l<m. (\<Sum>a<m. K ! i ! a * S ! a ! l) * K ! j ! l)"
proof -
  have KS: "is_mat n m (mm K S)" using K S pos by (simp add: mm_is_mat)
  have KT: "is_mat m n (mT K)" using K pos by (simp add: mT_is_mat)
  have "mm (mm K S) (mT K) ! i ! j = (\<Sum>l<m. mm K S ! i ! l * mT K ! l ! j)"
    using mm_nth[OF KS KT pos(2) i j] .
  also have "\<dots> = (\<Sum>l<m. (\<Sum>a<m. K ! i ! a * S ! a ! l) * K ! j ! l)"
  proof (rule sum.cong)
    fix l assume "l \<in> {..<m}"
    then have l: "l < m" by simp
    show "mm K S ! i ! l * mT K ! l ! j = (\<Sum>a<m. K ! i ! a * S ! a ! l) * K ! j ! l"
      using mm_nth[OF K S pos(2) i l] mT_nth[OF K pos(1) l j] by simp
  qed simp
  finally show ?thesis .
qed

lemma ksk_is_mat:
  assumes K: "is_mat n m K" and S: "is_mat m m S" and pos: "0 < n" "0 < m"
  shows "is_mat n n (mm (mm K S) (mT K))"
proof -
  have KS: "is_mat n m (mm K S)" using K S pos by (simp add: mm_is_mat)
  have KT: "is_mat m n (mT K)" using K pos by (simp add: mT_is_mat)
  show ?thesis using mm_is_mat[OF KS KT pos(2)] .
qed

lemma quad_nonneg:
  assumes "pos_def S" "length v = nrows S"
  shows "0 \<le> quad S v"
proof (cases "\<exists>i<length v. v ! i \<noteq> 0")
  case True
  with assms have "0 < quad S v" unfolding pos_def_def by blast
  then show ?thesis by simp
next
  case False
  then have "(\<Sum>a<length v. v ! a * S ! a ! l) * v ! l = 0" if "l < length v" for l
    using that by simp
  then have "quad S v = (\<Sum>l<length v. 0)"
    unfolding quad_def by (intro sum.cong) simp_all
  then show ?thesis by simp
qed

lemma posterior_covariance_trace:
  assumes P: "is_mat n n P" and K: "is_mat n m K" and S: "is_mat m m S" and pos: "0 < n" "0 < m"
    and pd: "pos_def S"
  shows "trace (broadcast2 (-) P (mm (mm K S) (mT K))) \<le> trace P"
proof -
  let ?M = "mm (mm K S) (mT K)"
  let ?D = "broadcast2 (-) P ?M"
  have M: "is_mat n n ?M" using ksk_is_mat[OF K S pos] .
  have D: "is_mat n n ?D" using P M pos by (simp add: broadcast2_is_mat)
  have diag: "?M ! i ! i = quad S (K ! i)" if "i < n" for i
  proof -
    have "length (K ! i) = m" using K that by (simp add: is_mat_iff)
    then show ?thesis using ksk_nth[OF K S pos that that] by (simp add: quad_def)
  qed
  have nonneg: "0 \<le> ?M ! i ! i" if "i < n" for i
  proof -
    have "length (K ! i) = nrows S" using K S that by (simp add: is_mat_iff nrows_def)
    then show ?thesis using quad_nonneg[OF pd] diag[OF that] by simp
  qed
  have "trace ?D = (\<Sum>i<n. ?D ! i ! i)" using D by (simp add: trace_def is_mat_nrows)
  also have "\<dots> = (\<Sum>i<n. P ! i ! i - ?M ! i ! i)"
    by (intro sum.cong refl) (use broadcast2_nth[OF P M] in simp)
  also have "\<dots> \<le> (\<Sum>i<n. P ! i ! i)"
    by (intro sum_mono) (use nonneg in simp)
  also have "\<dots> = trace P" using P by (simp add: trace_def is_mat_nrows)
  finally show ?thesis .
qed

lemma kalman_gain_is_mat:
  assumes Pxz: "is_mat n m Pxz" and S: "is_mat m m S" and pos: "0 < m"
    and si: "linalg_inv S = Inr si"
  shows "is_mat n m (mm Pxz si)"
  using mm_is_mat[OF Pxz linalg_inv_Inr(1)[OF S si] pos] .

section \<open>The exact numeric scenario\<close>

text \<open>
  Claim C8. For the one-dimensional scenario (predicted mean \<open>[0]\<close>, predicted covariance
  \<open>[[1]]\<close>, linear model with \<open>H = [[1]]\<close> and \<open>R = [[1]]\<close>, measurement \<open>z = [2]\<close>)
  the Kalman updater computes the innovation covariance \<open>[[2]]\<close>, the Kalman gain
  \<open>[[0.5]]\<close>, the posterior mean \<open>[1]\<close> and the posterior covariance \<open>[[0.5]]\<close>.
\<close>

theorem update_numeric_scenario:
  "snd (predict_measurement fns scenario_updater (prediction scenario_hypothesis) None)
     = Inr \<lparr>state_vector = [[0]], timestamp = 0, covar = [[2]], cross_covar = [[1]]\<rparr>
   \<and> snd (kalman_gain [[1]] [[2]]) = Inr [[1 / 2]]
   \<and> snd (update fns scenario_updater scenario_hypothesis)
     = Inr \<lparr>state_vector = [[1]], timestamp = 1, covar = [[1 / 2]],
            hypothesis = scenario_hypothesis\<rparr>"
  by (simp add: comp_defs array_defs inv_defs updater_defs scenario_defs)

section \<open>The two-dimensional scenario\<close>

lemma planar_prediction:
  "snd (predict_measurement fns planar_updater (prediction planar_hypothesis)
          (case measurement_model (measurement planar_hypothesis) of
             None \<Rightarrow> self_measurement_model planar_updater | Some m \<Rightarrow> Some m))
     = Inr \<lparr>state_vector = [[0], [0]], timestamp = 0, covar = [[3, 1], [1, 3]],
            cross_covar = [[2, 1], [1, 2]]\<rparr>"
  by (simp add: comp_defs array_defs updater_defs planar_defs)



lemma planar_update:
  "snd (update fns planar_updater planar_hypothesis)
     = Inr \<lparr>state_vector = [[5], [1]], timestamp = 1,
            covar = [[5 / 8, 1 / 8], [1 / 8, 5 / 8]], hypothesis = planar_hypothesis\<rparr>"
  by (simp add: comp_defs array_defs inv_defs updater_defs planar_defs)

lemma planar_pos_def: "pos_def [[3, 1], [1, 3]]"
proof -
  have pos: "0 < quad [[3, 1], [1, 3]] v"
    if l: "length v = 2" and nz: "\<exists>i<length v. v ! i \<noteq> 0" for v
  proof -
    obtain a b where v: "v = [a, b]"
      using l by (cases v; cases "tl v") (auto simp: numeral_2_eq_2)
    have q: "quad [[3, 1], [1, 3]] v = 2 * a\<^sup>2 + 2 * b\<^sup>2 + (a + b)\<^sup>2"
      by (simp add: quad_def v numeral_2_eq_2 power2_eq_square algebra_simps)
    have "a \<noteq> 0 \<or> b \<noteq> 0" using nz by (auto simp: v less_Suc_eq)
    then have "0 < 2 * a\<^sup>2 + 2 * b\<^sup>2" by (auto intro: add_pos_nonneg add_nonneg_pos)
    then show ?thesis using q by (simp add: add_pos_nonneg)
  qed
  show ?thesis
    unfolding pos_def_def
  proof (intro allI impI)
    fix v :: "real list"
    assume a: "length v = nrows [[3, 1], [1, 3]] \<and> (\<exists>i<length v. v ! i \<noteq> 0)"
    then have l: "length v = 2" by (simp add: nrows_def)
    from a have nz: "\<exists>i<length v. v ! i \<noteq> 0" by blast
    show "0 < quad [[3, 1], [1, 3]] v" using pos[OF l nz] .
  qed
qed

lemma planar_traces: "trace [[5 / 8, 1 / 8], [1 / 8, 5 / 8]] = 5 / 4" "trace [[2, 1], [1, 2]] = 4"
  by (simp_all add: trace_def nrows_def numeral_2_eq_2)

section \<open>The update equations\<close>




section \<open>The measurement prediction\<close>

lemma predict_measurement_linear:
  assumes cls: "updater_class self \<noteq> UnscentedKalmanUpdater"
    and f: "mm_function m (state_vector ps) (Some [0]) = Inr zp"
    and hh: "snd (measurement_matrix self ps (Some m)) = Inr H"
    and H: "is_mat k n H"
    and P: "is_mat n n (covar ps)"
    and R: "is_mat k k (mm_covar m)"
    and pos: "0 < k" "0 < n"
  shows "snd (predict_measurement fns self ps (Some m)) =
           Inr \<lparr>state_vector = zp, timestamp = timestamp ps,
                covar = broadcast2 (+) (mm (mm H (covar ps)) (mT H)) (mm_covar m),
                cross_covar = mm (covar ps) (mT H)\<rparr>"
proof -
  have HP: "is_mat k n (mm H (covar ps))" using mm_is_mat[OF H P pos(2)] .
  have HT: "is_mat n k (mT H)" using mT_is_mat[OF H pos(1)] .
  have HPH: "is_mat k k (mm (mm H (covar ps)) (mT H))" using mm_is_mat[OF HP HT pos(2)] .
  have 1: "matmul H (covar ps) = Inr (mm H (covar ps))" using matmul_ok[OF H P pos(1)] .
  have 2: "matmul (mm H (covar ps)) (mT H) = Inr (mm (mm H (covar ps)) (mT H))"
    using matmul_ok[OF HP HT pos(1)] .
  have 3: "elementwise (+) (mm (mm H (covar ps)) (mT H)) (mm_covar m)
             = Inr (broadcast2 (+) (mm (mm H (covar ps)) (mT H)) (mm_covar m))"
    using elementwise_same[OF HPH R pos(1)] .
  have 4: "matmul (covar ps) (mT H) = Inr (mm (covar ps) (mT H))"
    using matmul_ok[OF P HT pos(2)] .
  show ?thesis
    using cls f hh 1 2 3 4
    by (cases "updater_class self") (simp_all add: predict_measurement_def snd_seq)
qed

lemma kalman_predict_measurement_of_default:
  assumes cls: "updater_class self = KalmanUpdater"
    and d: "self_measurement_model self = Some m"
    and H: "mm_matrix m = Some H"
    and f: "mm_function m (state_vector ps) (Some [0]) = Inr zp"
    and shapes: "is_mat k n H" "is_mat n n (covar ps)" "is_mat k k (mm_covar m)" "0 < k" "0 < n"
  shows "snd (predict_measurement fns self ps None) =
           Inr \<lparr>state_vector = zp, timestamp = timestamp ps,
                covar = broadcast2 (+) (mm (mm H (covar ps)) (mT H)) (mm_covar m),
                cross_covar = mm (covar ps) (mT H)\<rparr>"
proof -
  have eq: "predict_measurement fns self ps None = predict_measurement fns self ps (Some m)"
    using d by (simp add: predict_measurement_def)
  have u: "updater_class self \<noteq> UnscentedKalmanUpdater" using cls by simp
  have hh: "snd (measurement_matrix self ps (Some m)) = Inr H"
    using cls d H by (simp add: measurement_matrix_def)
  show ?thesis
    using predict_measurement_linear[OF u f hh shapes, of fns] by (simp add: eq)
qed

text \<open>
  Claim C4 says that on the base Kalman updater the prediction for a resolved model has the
  mean \<open>function(x, [0])\<close>, the innovation covariance \<open>H P H\<^sup>T + R\<close> and the
  cross-covariance \<open>P H\<^sup>T\<close>, with \<open>H\<close> and \<open>R\<close> of that model. That holds when the model
  is the configured default (the lemma above). With an explicit model (\<open>H = [[2]]\<close>,
  \<open>R = [[3]]\<close>) on an updater whose default has \<open>H = [[1]]\<close>, at \<open>x = [[3]]\<close>, \<open>P = [[1]]\<close>,
  the code returns \<open>S = [[4]]\<close> and the cross-covariance \<open>[[1]]\<close>, where the model's own
  matrix gives \<open>[[7]]\<close> and \<open>[[2]]\<close>; without a default the call fails although the model
  is given.
\<close>

theorem kalman_predict_measurement_explicit_model:
  "updater_class scenario_updater = KalmanUpdater
   \<and> self_measurement_model scenario_updater = Some scenario_model
   \<and> mm_matrix scenario_model = Some [[1]]
   \<and> mm_matrix other_model = Some [[2]] \<and> mm_covar other_model = [[3]]
   \<and> mm_function other_model (state_vector moved_state) (Some [0]) = Inr [[6]]
   \<and> snd (predict_measurement fns scenario_updater moved_state (Some other_model))
       = Inr \<lparr>state_vector = [[6]], timestamp = 0, covar = [[4]], cross_covar = [[1]]\<rparr>
   \<and> broadcast2 (+) (mm (mm [[2]] (covar moved_state)) (mT [[2]])) (mm_covar other_model)
       = [[7]]
   \<and> mm (covar moved_state) (mT [[2]]) = [[2]]
   \<and> snd (predict_measurement fns (unconfigured KalmanUpdater) moved_state (Some other_model))
       = Inl AttributeError"
  by (simp add: comp_defs array_defs updater_defs sample_defs)

text \<open>
  Claim C6. \<^verbatim>\<open>KalmanUpdater.measurement_matrix\<close> ignores both arguments and returns the
  matrix of the updater's own model. So a prediction with an explicit model takes \<open>H\<close> from
  the configured default and the mean and the noise covariance from the explicit model, and
  fails when no default is configured.
\<close>

theorem kalman_measurement_matrix_ignores_model:
  assumes cls: "updater_class self = KalmanUpdater"
  shows "measurement_matrix self ps measurement_model0 =
           (case self_measurement_model self of
              None \<Rightarrow> raise AttributeError
            | Some d \<Rightarrow>
                (case mm_matrix d of
                   None \<Rightarrow> raise AttributeError
                 | Some H \<Rightarrow> perform Matrix (Inr H)))
         \<and> (\<forall>d H m zp k n.
               self_measurement_model self = Some d \<and> mm_matrix d = Some H \<and>
               mm_function m (state_vector ps) (Some [0]) = Inr zp \<and>
               is_mat k n H \<and> is_mat n n (covar ps) \<and> is_mat k k (mm_covar m) \<and>
               0 < k \<and> 0 < n \<longrightarrow>
               snd (predict_measurement fns self ps (Some m)) =
                 Inr \<lparr>state_vector = zp, timestamp = timestamp ps,
                      covar = broadcast2 (+) (mm (mm H (covar ps)) (mT H)) (mm_covar m),
                      cross_covar = mm (covar ps) (mT H)\<rparr>)
         \<and> (\<forall>m. self_measurement_model self = None \<longrightarrow>
               snd (predict_measurement fns self ps (Some m)) =
                 (case mm_function m (state_vector ps) (Some [0]) of
                    Inl e \<Rightarrow> Inl e | Inr zp \<Rightarrow> Inl AttributeError))"
proof (intro conjI allI impI)
  show mmx: "measurement_matrix self ps measurement_model0 =
           (case self_measurement_model self of
              None \<Rightarrow> raise AttributeError
            | Some d \<Rightarrow>
                (case mm_matrix d of
                   None \<Rightarrow> raise AttributeError
                 | Some H \<Rightarrow> perform Matrix (Inr H)))" for measurement_model0
    using cls by (simp add: measurement_matrix_def)
next
  fix d H zp k n and m :: model
  assume a: "self_measurement_model self = Some d \<and> mm_matrix d = Some H \<and>
               mm_function m (state_vector ps) (Some [0]) = Inr zp \<and>
               is_mat k n H \<and> is_mat n n (covar ps) \<and> is_mat k k (mm_covar m) \<and>
               0 < k \<and> 0 < n"
  have hh: "snd (measurement_matrix self ps (Some m)) = Inr H"
    using cls a by (simp add: measurement_matrix_def)
  have u: "updater_class self \<noteq> UnscentedKalmanUpdater" using cls by simp
  show "snd (predict_measurement fns self ps (Some m)) =
                 Inr \<lparr>state_vector = zp, timestamp = timestamp ps,
                      covar = broadcast2 (+) (mm (mm H (covar ps)) (mT H)) (mm_covar m),
                      cross_covar = mm (covar ps) (mT H)\<rparr>"
    using predict_measurement_linear[OF u _ hh, of zp k n fns] a by simp
next
  fix m :: model
  assume "self_measurement_model self = None"
  then show "snd (predict_measurement fns self ps (Some m)) =
                 (case mm_function m (state_vector ps) (Some [0]) of
                    Inl e \<Rightarrow> Inl e | Inr zp \<Rightarrow> Inl AttributeError)"
    using cls by (simp add: predict_measurement_def measurement_matrix_def snd_seq
        split: sum.splits)
qed

theorem kalman_measurement_matrix_ignores_model_witness:
  "updater_class scenario_updater = KalmanUpdater
   \<and> updater_class (unconfigured KalmanUpdater) = KalmanUpdater
   \<and> measurement_matrix scenario_updater moved_state (Some other_model)
        = perform Matrix (Inr [[1]])
   \<and> snd (predict_measurement sample_functions scenario_updater moved_state (Some other_model))
        = Inr \<lparr>state_vector = [[6]], timestamp = 0, covar = [[4]], cross_covar = [[1]]\<rparr>
   \<and> snd (predict_measurement sample_functions (unconfigured KalmanUpdater) moved_state
             (Some other_model))
        = Inl AttributeError"
proof -
  have c1: "updater_class scenario_updater = KalmanUpdater"
    by (simp add: scenario_updater_def)
  have c2: "updater_class (unconfigured KalmanUpdater) = KalmanUpdater"
    by (simp add: unconfigured_def)
  note t1 = kalman_measurement_matrix_ignores_model[OF c1,
      of moved_state "Some other_model" sample_functions]
  note t2 = kalman_measurement_matrix_ignores_model[OF c2,
      of moved_state "Some other_model" sample_functions]
  have a: "measurement_matrix scenario_updater moved_state (Some other_model)
        = perform Matrix (Inr [[1]])"
    using t1 by (simp add: scenario_defs)
  have "self_measurement_model scenario_updater = Some scenario_model \<and>
        mm_matrix scenario_model = Some [[1]] \<and>
        mm_function other_model (state_vector moved_state) (Some [0]) = Inr [[6]] \<and>
        is_mat 1 1 [[1]] \<and> is_mat 1 1 (covar moved_state) \<and> is_mat 1 1 (mm_covar other_model) \<and>
        (0::nat) < 1 \<and> (0::nat) < 1"
    by (simp add: scenario_defs other_model_def moved_state_def array_defs is_mat_def)
  with t1 have "snd (predict_measurement sample_functions scenario_updater moved_state
                  (Some other_model)) =
                 Inr \<lparr>state_vector = [[6]], timestamp = timestamp moved_state,
                      covar = broadcast2 (+) (mm (mm [[1]] (covar moved_state)) (mT [[1]]))
                                (mm_covar other_model),
                      cross_covar = mm (covar moved_state) (mT [[1]])\<rparr>"
    by blast
  then have b: "snd (predict_measurement sample_functions scenario_updater moved_state
                  (Some other_model))
        = Inr \<lparr>state_vector = [[6]], timestamp = 0, covar = [[4]], cross_covar = [[1]]\<rparr>"
    by (simp add: moved_state_def other_model_def linear_gaussian_def array_defs)
  have "self_measurement_model (unconfigured KalmanUpdater) = None"
    by (simp add: unconfigured_def)
  with t2 have "snd (predict_measurement sample_functions (unconfigured KalmanUpdater) moved_state
                  (Some other_model)) =
                 (case mm_function other_model (state_vector moved_state) (Some [0]) of
                    Inl e \<Rightarrow> Inl e | Inr zp \<Rightarrow> Inl AttributeError)"
    by blast
  then have c: "snd (predict_measurement sample_functions (unconfigured KalmanUpdater) moved_state
             (Some other_model)) = Inl AttributeError"
    by (simp add: moved_state_def other_model_def linear_gaussian_def array_defs)
  show ?thesis using c1 c2 a b c by simp
qed

section \<open>Contraction of the posterior covariance\<close>

text \<open>
  Claim C9. For a state of dimension \<open>n\<close> and a measurement of dimension \<open>m\<close>, when the
  innovation covariance is positive definite, the trace of the posterior covariance that
  update returns does not exceed the trace of the predicted covariance.
\<close>

theorem posterior_trace_contraction:
  assumes pm: "snd (predict_measurement fns self (prediction hyp)
                 (case measurement_model (measurement hyp) of
                    None \<Rightarrow> self_measurement_model self | Some m \<Rightarrow> Some m)) = Inr gmp"
    and P: "is_mat n n (covar (prediction hyp))"
    and S: "is_mat m m (covar gmp)"
    and Pxz: "is_mat n m (cross_covar gmp)"
    and pos: "0 < n" "0 < m"
    and pd: "pos_def (covar gmp)"
    and up: "snd (update fns self hyp) = Inr post"
  shows "trace (covar post) \<le> trace (covar (prediction hyp))"
proof -
  from update_Inr[OF up] pm obtain si
    where si: "linalg_inv (covar gmp) = Inr si"
      and cov: "covar post = broadcast2 (-) (covar (prediction hyp))
                 (mm (mm (mm (cross_covar gmp) si) (covar gmp)) (mT (mm (cross_covar gmp) si)))"
    by auto
  have K: "is_mat n m (mm (cross_covar gmp) si)" using kalman_gain_is_mat[OF Pxz S pos(2) si] .
  show ?thesis unfolding cov using posterior_covariance_trace[OF P K S pos pd] .
qed

theorem posterior_trace_contraction_witness:
  "snd (predict_measurement sample_functions planar_updater (prediction planar_hypothesis)
          (case measurement_model (measurement planar_hypothesis) of
             None \<Rightarrow> self_measurement_model planar_updater | Some m \<Rightarrow> Some m))
     = Inr \<lparr>state_vector = [[0], [0]], timestamp = 0, covar = [[3, 1], [1, 3]],
            cross_covar = [[2, 1], [1, 2]]\<rparr>
   \<and> pos_def [[3, 1], [1, 3]]
   \<and> snd (update sample_functions planar_updater planar_hypothesis)
       = Inr \<lparr>state_vector = [[5], [1]], timestamp = 1,
              covar = [[5 / 8, 1 / 8], [1 / 8, 5 / 8]], hypothesis = planar_hypothesis\<rparr>
   \<and> trace [[5 / 8, 1 / 8], [1 / 8, 5 / 8]] = 5 / 4 \<and> trace [[2, 1], [1, 2]] = 4
   \<and> trace [[5 / 8, 1 / 8], [1 / 8, 5 / 8]] \<le> trace [[2, 1], [1, 2]]"
proof -
  let ?gmp = "\<lparr>state_vector = [[0], [0]], timestamp = 0, covar = [[3, 1], [1, 3]],
               cross_covar = [[2, 1], [1, 2]]\<rparr>"
  note pm = planar_prediction[of sample_functions]
  note up = planar_update[of sample_functions]
  have P: "is_mat 2 2 (covar (prediction planar_hypothesis))"
    by (simp add: is_mat_def planar_hypothesis_def)
  have S: "is_mat 2 2 (covar ?gmp)" by (simp add: is_mat_def)
  have Pxz: "is_mat 2 2 (cross_covar ?gmp)" by (simp add: is_mat_def)
  have pd: "pos_def (covar ?gmp)" using planar_pos_def by simp
  have "trace [[5 / 8, 1 / 8], [1 / 8, 5 / 8]] \<le> trace [[2, 1], [1, 2]]"
    using posterior_trace_contraction[OF pm P S Pxz _ _ pd up]
    by (simp add: planar_hypothesis_def)
  then show ?thesis using pm up planar_pos_def planar_traces by simp
qed

section \<open>Precedence of the hypothesis's model\<close>

text \<open>
  For the extended and the unscented updater the configured default has no influence once the
  measurement carries a model; and the base and the extended updater agree when the model is
  the configured default, which has a matrix.
\<close>

lemma update_ignores_default_unless_kalman:
  assumes "updater_class self \<noteq> KalmanUpdater"
    and "measurement_model (measurement hyp) = Some m"
  shows "update fns (self\<lparr>self_measurement_model := d\<rparr>) hyp = update fns self hyp"
proof -
  have "predict_measurement fns (self\<lparr>self_measurement_model := d\<rparr>) ps (Some m)
          = predict_measurement fns self ps (Some m)" for ps
    using assms(1)
    by (cases "updater_class self") (simp_all add: predict_measurement_def measurement_matrix_def)
  then show ?thesis using assms(2) by (simp add: update_def)
qed

lemma measurement_matrix_default_agree:
  assumes "self_measurement_model kf = Some d" "mm_matrix d = Some H"
  shows "measurement_matrix (kf\<lparr>updater_class := ExtendedKalmanUpdater\<rparr>) ps (Some d)
           = measurement_matrix (kf\<lparr>updater_class := KalmanUpdater\<rparr>) ps (Some d)"
  using assms by (simp add: measurement_matrix_def)

lemma kalman_extended_agree_on_default:
  assumes none: "measurement_model (measurement hyp) = None"
    and d: "self_measurement_model kf = Some d" and H: "mm_matrix d = Some H"
  shows "update fns (kf\<lparr>updater_class := ExtendedKalmanUpdater\<rparr>) hyp
           = update fns (kf\<lparr>updater_class := KalmanUpdater\<rparr>) hyp"
proof -
  have "predict_measurement fns (kf\<lparr>updater_class := ExtendedKalmanUpdater\<rparr>) ps (Some d)
          = predict_measurement fns (kf\<lparr>updater_class := KalmanUpdater\<rparr>) ps (Some d)" for ps
    using measurement_matrix_default_agree[OF d H]
    by (simp add: predict_measurement_def d)
  then show ?thesis using none d by (simp add: update_def)
qed

text \<open>
  Claim C1 says that with a model on the hypothesis's measurement and a default on the updater
  the posterior comes from the hypothesis's model alone, on every updater. On the base Kalman
  updater the same hypothesis (carrying the scenario's model) gives three different outcomes
  for three defaults: the observation matrix is read from the default.
\<close>

theorem kalman_update_depends_on_default_model:
  "measurement_model (measurement attached_hypothesis) = Some scenario_model
   \<and> snd (update fns (scenario_updater\<lparr>self_measurement_model := Some scenario_model\<rparr>)
            attached_hypothesis)
       = Inr \<lparr>state_vector = [[1]], timestamp = 1, covar = [[1 / 2]],
              hypothesis = attached_hypothesis\<rparr>
   \<and> snd (update fns (scenario_updater\<lparr>self_measurement_model := Some other_model\<rparr>)
            attached_hypothesis)
       = Inr \<lparr>state_vector = [[4 / 5]], timestamp = 1, covar = [[1 / 5]],
              hypothesis = attached_hypothesis\<rparr>
   \<and> snd (update fns (scenario_updater\<lparr>self_measurement_model := None\<rparr>) attached_hypothesis)
       = Inl AttributeError"
  by (simp add: comp_defs array_defs inv_defs updater_defs sample_defs)

text \<open>
  Claim C5 says that the base and the extended updater return the same posterior for a linear
  model. With the linear model on the hypothesis's measurement they differ: without a default
  the base updater fails and the extended one returns, and with another default the
  posteriors are not the same.
\<close>

theorem kalman_extended_differ_on_attached_model:
  "mm_matrix scenario_model = Some [[1]]
   \<and> measurement_model (measurement attached_hypothesis) = Some scenario_model
   \<and> snd (update fns (unconfigured KalmanUpdater) attached_hypothesis) = Inl AttributeError
   \<and> snd (update fns (unconfigured ExtendedKalmanUpdater) attached_hypothesis)
       = Inr \<lparr>state_vector = [[1]], timestamp = 1, covar = [[1 / 2]],
              hypothesis = attached_hypothesis\<rparr>
   \<and> snd (update fns ((unconfigured KalmanUpdater)\<lparr>self_measurement_model := Some other_model\<rparr>)
            attached_hypothesis)
       = Inr \<lparr>state_vector = [[4 / 5]], timestamp = 1, covar = [[1 / 5]],
              hypothesis = attached_hypothesis\<rparr>
   \<and> snd (update fns ((unconfigured ExtendedKalmanUpdater)
                        \<lparr>self_measurement_model := Some other_model\<rparr>) attached_hypothesis)
       = Inr \<lparr>state_vector = [[1]], timestamp = 1, covar = [[1 / 2]],
              hypothesis = attached_hypothesis\<rparr>"
  by (simp add: comp_defs array_defs inv_defs updater_defs sample_defs)

section \<open>No measurement model anywhere\<close>

text \<open>
  Claim C2 says that without any model every update fails before any matrix operation. The
  unscented updater generates the sigma points before it reads the model: without any model
  its update has called \<^verbatim>\<open>gauss2sigma\<close> when it fails.
\<close>

theorem unscented_update_without_model_counterexample:
  "measurement_model (measurement scenario_hypothesis) = None
   \<and> self_measurement_model (unconfigured UnscentedKalmanUpdater) = None
   \<and> fst (update sample_functions (unconfigured UnscentedKalmanUpdater) scenario_hypothesis)
       = [Gauss2Sigma]
   \<and> fst (update sample_functions (unconfigured UnscentedKalmanUpdater) scenario_hypothesis)
       \<noteq> []"
  by (simp add: comp_defs updater_defs sample_defs)

text \<open>
  Claim C2, amended. Without a model on the hypothesis's measurement and on the updater, the
  base and the extended updater fail with the \<open>AttributeError\<close> of reading
  \<^verbatim>\<open>None.function\<close> (the spec's \<open>ConfigurationError\<close>) before any operation on an array;
  the unscented updater calls \<^verbatim>\<open>gauss2sigma\<close> first and fails with that error once the sigma
  points are returned.
\<close>

theorem update_without_model:
  assumes "measurement_model (measurement hyp) = None"
    and "self_measurement_model self = None"
  shows "(updater_class self \<noteq> UnscentedKalmanUpdater \<longrightarrow>
            update fns self hyp = ([], Inl AttributeError) \<and>
            predict_measurement fns self ps None = ([], Inl AttributeError))
       \<and> (updater_class self = UnscentedKalmanUpdater \<longrightarrow>
            update fns self hyp =
              ([Gauss2Sigma],
               case gauss2sigma fns (state_vector (prediction hyp)) (covar (prediction hyp))
                      (alpha self) (beta self) (kappa self) of
                 Inl e \<Rightarrow> Inl e | Inr sigma \<Rightarrow> Inl AttributeError) \<and>
            predict_measurement fns self ps None =
              ([Gauss2Sigma],
               case gauss2sigma fns (state_vector ps) (covar ps)
                      (alpha self) (beta self) (kappa self) of
                 Inl e \<Rightarrow> Inl e | Inr sigma \<Rightarrow> Inl AttributeError))"
  using assms
  by (cases "updater_class self")
    (simp_all add: update_def predict_measurement_def comp_defs split: sum.splits prod.splits)

theorem update_without_model_witness:
  "measurement_model (measurement scenario_hypothesis) = None
   \<and> self_measurement_model (unconfigured KalmanUpdater) = None
   \<and> self_measurement_model (unconfigured ExtendedKalmanUpdater) = None
   \<and> self_measurement_model (unconfigured UnscentedKalmanUpdater) = None
   \<and> update sample_functions (unconfigured KalmanUpdater) scenario_hypothesis
        = ([], Inl AttributeError)
   \<and> predict_measurement sample_functions (unconfigured KalmanUpdater)
        (prediction scenario_hypothesis) None = ([], Inl AttributeError)
   \<and> update sample_functions (unconfigured ExtendedKalmanUpdater) scenario_hypothesis
        = ([], Inl AttributeError)
   \<and> update sample_functions (unconfigured UnscentedKalmanUpdater) scenario_hypothesis
        = ([Gauss2Sigma], Inl AttributeError)"
proof -
  have h: "measurement_model (measurement scenario_hypothesis) = None"
    by (simp add: scenario_hypothesis_def)
  have u: "self_measurement_model (unconfigured c) = None" for c
    by (simp add: unconfigured_def)
  show ?thesis
    using h u
      update_without_model[OF h u, of KalmanUpdater sample_functions
        "prediction scenario_hypothesis"]
      update_without_model[OF h u, of ExtendedKalmanUpdater sample_functions
        "prediction scenario_hypothesis"]
      update_without_model[OF h u, of UnscentedKalmanUpdater sample_functions
        "prediction scenario_hypothesis"]
    by (simp add: unconfigured_def sample_functions_def scenario_hypothesis_def)
qed

end
